theory Spec2Isabelle
  imports Main "HOL-Library.Sublist"
begin

section \<open>The resource identifier codec of the S3 bucket ACL resource\<close>

text \<open>
  The development embeds the two functions at the end of
  \<^verbatim>\<open>internal/service/s3/bucket_acl.go\<close>, \<^verbatim>\<open>BucketACLCreateResourceID\<close> and
  \<^verbatim>\<open>BucketACLParseResourceID\<close>, together with the parts of Go's \<^verbatim>\<open>strings\<close>
  package they call. A Go string is a sequence of bytes, so it is a \<^typ>\<open>string\<close>
  (a list of 8-bit characters) here.
\<close>

subsection \<open>The library functions the codec calls\<close>

text \<open>
  \<^verbatim>\<open>strings.Index(s, substr)\<close>: the position of the first occurrence of
  \<^verbatim>\<open>substr\<close> in \<^verbatim>\<open>s\<close>; Go's result -1 is \<^term>\<open>None\<close>.
\<close>

fun Index :: "string \<Rightarrow> string \<Rightarrow> nat option" where
  "Index [] substr = (if substr = [] then Some 0 else None)"
| "Index (c # s) substr =
     (if prefix substr (c # s) then Some 0 else map_option Suc (Index s substr))"

text \<open>
  \<^verbatim>\<open>strings.Split(s, sep)\<close>, that is \<^verbatim>\<open>genSplit(s, sep, 0, -1)\<close>: with a non-empty
  separator the loop cuts \<^verbatim>\<open>s\<close> at the first occurrence of \<^verbatim>\<open>sep\<close>, keeps the text
  before it and goes on after it, until no occurrence is left; the rest is the last
  element. The piece count \<^verbatim>\<open>Count(s, sep) + 1\<close> that Go computes beforehand only sizes
  the result, it never stops the loop early. With the empty separator Go explodes
  \<^verbatim>\<open>s\<close> into its UTF-8 sequences, which for ASCII text is one string per byte; the
  codec passes one-byte separators only.
\<close>

function Split :: "string \<Rightarrow> string \<Rightarrow> string list" where
  "Split s sep =
     (if sep = [] then map (\<lambda>c. [c]) s
      else case Index s sep of
             None \<Rightarrow> [s]
           | Some m \<Rightarrow> take m s # Split (drop (m + length sep) s) sep)"
  by pat_completeness auto
termination
proof (relation "measure (\<lambda>(s, sep). length s)")
  show "wf (measure (\<lambda>(s, sep). length s))" by simp
next
  fix s sep :: string and m :: nat
  assume sep: "sep \<noteq> []" and found: "Index s sep = Some m"
  have "Index t sep = Some k \<Longrightarrow> k + length sep \<le> length t" for t k
  proof (induction t arbitrary: k)
    case Nil
    then show ?case by (simp split: if_splits)
  next
    case (Cons c t)
    show ?case
    proof (cases "prefix sep (c # t)")
      case True
      with Cons.prems have "k = 0" by simp
      with True show ?thesis using prefix_length_le by fastforce
    next
      case False
      with Cons.prems obtain j where "Index t sep = Some j" and "k = Suc j" by auto
      with Cons.IH show ?thesis by fastforce
    qed
  qed
  with found have "m + length sep \<le> length s" by blast
  moreover from sep have "0 < length sep" by simp
  ultimately have "length s - (m + length sep) < length s" by arith
  then show "((drop (m + length sep) s, sep), (s, sep)) \<in> measure (\<lambda>(s, sep). length s)"
    by simp
qed

declare Split.simps [simp del]

text \<open>
  \<^verbatim>\<open>strings.Join(elems, sep)\<close>: the elements in order with \<^verbatim>\<open>sep\<close> between each two.
\<close>

fun Join :: "string list \<Rightarrow> string \<Rightarrow> string" where
  "Join [] sep = []"
| "Join [e] sep = e"
| "Join (e # e' # elems) sep = e @ sep @ Join (e' # elems) sep"

subsection \<open>The codec\<close>

definition BucketAclSeparator :: string where
  "BucketAclSeparator = ''/''"

definition BucketAndExpectedBucketOwnerSeparator :: string where
  "BucketAndExpectedBucketOwnerSeparator = '',''"

text \<open>
  \<^verbatim>\<open>BucketACLCreateResourceID\<close> returns a string and nothing else; its three early
  returns are the branches of the conditional.
\<close>

definition BucketACLCreateResourceID :: "string \<Rightarrow> string \<Rightarrow> string \<Rightarrow> string" where
  "BucketACLCreateResourceID bucket expectedBucketOwner acl =
     (if expectedBucketOwner = [] then
        (if acl = [] then bucket
         else Join [bucket, acl] BucketAclSeparator)
      else if acl = [] then
        Join [bucket, expectedBucketOwner] BucketAndExpectedBucketOwnerSeparator
      else
        (let parts = [bucket, expectedBucketOwner];
             ident = Join [Join parts BucketAndExpectedBucketOwnerSeparator, acl]
                       BucketAclSeparator
         in ident))"

text \<open>
  The only error of the codec is the value that \<^verbatim>\<open>fmt.Errorf\<close> builds at the end of
  \<^verbatim>\<open>BucketACLParseResourceID\<close>; the specification calls it MalformedIdentifier. It
  carries its message. In the format string of that call the verb \<^verbatim>\<open>%s\<close> takes
  the first operand, the identifier, and the verbs \<^verbatim>\<open>%[2]s\<close> and \<^verbatim>\<open>%[3]s\<close> name
  their operand by its position: the second operand is
  \<^verbatim>\<open>BucketAndExpectedBucketOwnerSeparator\<close> and the third \<^verbatim>\<open>BucketAclSeparator\<close>.
\<close>

datatype error = Errorf string

definition unexpectedFormat :: "string \<Rightarrow> error" where
  "unexpectedFormat ident =
     Errorf (''unexpected format for ID ('' @ ident @ ''), expected BUCKET or BUCKET''
       @ BucketAndExpectedBucketOwnerSeparator @ ''EXPECTED_BUCKET_OWNER or BUCKET''
       @ BucketAclSeparator @ ''ACL or BUCKET''
       @ BucketAndExpectedBucketOwnerSeparator @ ''EXPECTED_BUCKET_OWNER''
       @ BucketAclSeparator @ ''ACL'')"

text \<open>
  The method \<^verbatim>\<open>Error()\<close> of that value gives the message back.
\<close>

fun Error :: "error \<Rightarrow> string" where
  "Error (Errorf message) = message"

text \<open>
  \<^verbatim>\<open>BucketACLParseResourceID\<close> has four named results, \<^verbatim>\<open>bucket\<close>,
  \<^verbatim>\<open>expectedBucketOwner\<close>, \<^verbatim>\<open>acl\<close> and \<^verbatim>\<open>err\<close>, which start as three empty strings
  and \<^verbatim>\<open>nil\<close>; every \<^verbatim>\<open>return\<close> hands back their current values. The result is the
  quadruple of them, with \<^term>\<open>None\<close> for a \<^verbatim>\<open>nil\<close> error. Each of the two \<^verbatim>\<open>if\<close>
  blocks either returns (\<^term>\<open>Some\<close> of the quadruple) or is left without having
  assigned anything (\<^term>\<open>None\<close>), and control goes on to the statement after it.
\<close>

type_synonym parsed = "string \<times> string \<times> string \<times> error option"

definition parseWithoutOwner :: "string list \<Rightarrow> parsed option" where
  "parseWithoutOwner parts =
     (if length parts = 1 \<and> parts ! 0 \<noteq> [] then
        (let partsWithACL = Split (parts ! 0) BucketAclSeparator in
         if length partsWithACL = 1 then
           Some (partsWithACL ! 0, [], [], None)
         else if length partsWithACL = 2 \<and> partsWithACL ! 0 \<noteq> [] \<and> partsWithACL ! 1 \<noteq> [] then
           Some (partsWithACL ! 0, [], partsWithACL ! 1, None)
         else None)
      else None)"

definition parseWithOwner :: "string list \<Rightarrow> parsed option" where
  "parseWithOwner parts =
     (if length parts = 2 \<and> parts ! 0 \<noteq> [] \<and> parts ! 1 \<noteq> [] then
        (let partsWithACL = Split (parts ! 1) BucketAclSeparator in
         if length partsWithACL = 1 then
           Some (parts ! 0, partsWithACL ! 0, [], None)
         else if length partsWithACL = 2 \<and> partsWithACL ! 0 \<noteq> [] \<and> partsWithACL ! 1 \<noteq> [] then
           Some (parts ! 0, partsWithACL ! 0, partsWithACL ! 1, None)
         else None)
      else None)"

definition BucketACLParseResourceID :: "string \<Rightarrow> parsed" where
  "BucketACLParseResourceID ident =
     (let parts = Split ident BucketAndExpectedBucketOwnerSeparator in
      case parseWithoutOwner parts of
        Some returned \<Rightarrow> returned
      | None \<Rightarrow>
         (case parseWithOwner parts of
            Some returned \<Rightarrow> returned
          | None \<Rightarrow> ([], [], [], Some (unexpectedFormat ident))))"

subsection \<open>The decision procedure of the specification\<close>

text \<open>
  The decoder as the specification words it, to be compared with the function above.
  Split the identifier on the qualifier separator \<^verbatim>\<open>,\<close>. With exactly one part, which is
  non-empty, split that part on the enumeration separator \<^verbatim>\<open>/\<close>: one non-empty segment
  is the name alone, two non-empty segments are the name and the enumeration value.
  With exactly two parts, both non-empty, split the second part on \<^verbatim>\<open>/\<close>: one non-empty
  segment is the owner qualifier, two non-empty segments are the owner qualifier and
  the enumeration value, and the first part is the name. Every other shape is
  malformed (\<^term>\<open>None\<close>).
\<close>

definition decode_spec :: "string \<Rightarrow> (string \<times> string \<times> string) option" where
  "decode_spec ident =
     (case Split ident '','' of
        [part] \<Rightarrow>
          if part \<noteq> [] then
            (case Split part ''/'' of
               [segment] \<Rightarrow> if segment \<noteq> [] then Some (segment, [], []) else None
             | [seg0, seg1] \<Rightarrow>
                 if seg0 \<noteq> [] \<and> seg1 \<noteq> [] then Some (seg0, [], seg1) else None
             | _ \<Rightarrow> None)
          else None
      | [part0, part1] \<Rightarrow>
          if part0 \<noteq> [] \<and> part1 \<noteq> [] then
            (case Split part1 ''/'' of
               [segment] \<Rightarrow> if segment \<noteq> [] then Some (part0, segment, []) else None
             | [seg0, seg1] \<Rightarrow>
                 if seg0 \<noteq> [] \<and> seg1 \<noteq> [] then Some (part0, seg0, seg1) else None
             | _ \<Rightarrow> None)
          else None
      | _ \<Rightarrow> None)"

section \<open>Properties\<close>

subsection \<open>Splitting on a one-byte separator\<close>

lemma list_shape_cases [case_names none one two more]:
  assumes "xs = [] \<Longrightarrow> P" and "\<And>a. xs = [a] \<Longrightarrow> P" and "\<And>a b. xs = [a, b] \<Longrightarrow> P"
    and "\<And>a b c ds. xs = a # b # c # ds \<Longrightarrow> P"
  shows P
proof (cases xs)
  case Nil
  with assms(1) show ?thesis .
next
  case outer: (Cons a as)
  show ?thesis
  proof (cases as)
    case Nil
    with outer assms(2) show ?thesis by simp
  next
    case middle: (Cons b bs)
    show ?thesis
    proof (cases bs)
      case Nil
      with outer middle assms(3) show ?thesis by simp
    next
      case (Cons c ds)
      with outer middle assms(4) show ?thesis by simp
    qed
  qed
qed

lemma Index_char_absent: "c \<notin> set s \<Longrightarrow> Index s [c] = None"
  by (induction s) auto

lemma Index_char_first: "c \<notin> set p \<Longrightarrow> Index (p @ c # r) [c] = Some (length p)"
  by (induction p) auto

lemma Split_char_absent: "c \<notin> set s \<Longrightarrow> Split s [c] = [s]"
  by (subst Split.simps) (simp add: Index_char_absent)

lemma Split_char_first: "c \<notin> set p \<Longrightarrow> Split (p @ c # r) [c] = p # Split r [c]"
  by (subst Split.simps) (simp add: Index_char_first)

lemma Split_char_head: "Split (c # r) [c] = [] # Split r [c]"
  using Split_char_first [of c "[]" r] by simp

lemma Split_char_not_Nil: "Split s [c] \<noteq> []"
proof (cases "c \<in> set s")
  case True
  then obtain p r where "s = p @ c # r" and "c \<notin> set p" by (meson split_list_first)
  then show ?thesis by (simp add: Split_char_first)
next
  case False
  then show ?thesis by (simp add: Split_char_absent)
qed

lemma Split_char_length: "length (Split s [c]) = Suc (count_list s c)"
proof (induction s rule: length_induct)
  case (1 s)
  show ?case
  proof (cases "c \<in> set s")
    case True
    then obtain p r where s: "s = p @ c # r" and p: "c \<notin> set p" by (meson split_list_first)
    then have "length r < length s" by simp
    with 1 have "length (Split r [c]) = Suc (count_list r c)" by blast
    moreover from p have "count_list p c = 0" by (simp add: count_list_0_iff)
    ultimately show ?thesis using s p by (simp add: Split_char_first)
  next
    case False
    then show ?thesis by (simp add: Split_char_absent count_list_0_iff)
  qed
qed

lemma Split_char_eq_single: "Split s [c] = [p] \<longleftrightarrow> p = s \<and> c \<notin> set s"
proof (cases "c \<in> set s")
  case True
  then obtain q r where "s = q @ c # r" and "c \<notin> set q" by (meson split_list_first)
  with True show ?thesis by (simp add: Split_char_first Split_char_not_Nil)
next
  case False
  then show ?thesis by (auto simp add: Split_char_absent)
qed

lemma Split_char_eq_pair:
  "Split s [c] = [p, r] \<longleftrightarrow> s = p @ c # r \<and> c \<notin> set p \<and> c \<notin> set r"
proof
  assume eq: "Split s [c] = [p, r]"
  then have "c \<in> set s" using Split_char_absent [of c s] by auto
  then obtain p' r' where s: "s = p' @ c # r'" and p': "c \<notin> set p'" by (meson split_list_first)
  with eq have "p' = p" and "Split r' [c] = [r]" by (simp_all add: Split_char_first)
  then show "s = p @ c # r \<and> c \<notin> set p \<and> c \<notin> set r"
    using s p' by (simp add: Split_char_eq_single)
next
  assume "s = p @ c # r \<and> c \<notin> set p \<and> c \<notin> set r"
  then show "Split s [c] = [p, r]" by (simp add: Split_char_first Split_char_absent)
qed

lemma Split_char_Nil: "Split [] [c] = [[]]"
  by (simp add: Split_char_absent)

lemma Split_char_Cons:
  "Split (x # s) [c] =
     (if x = c then [] # Split s [c]
      else case Split s [c] of p # ps \<Rightarrow> (x # p) # ps | [] \<Rightarrow> [])"
proof (cases "x = c")
  case True
  then show ?thesis by (simp add: Split_char_head)
next
  case False
  show ?thesis
  proof (cases "c \<in> set s")
    case True
    then obtain p r where s: "s = p @ c # r" and p: "c \<notin> set p" by (meson split_list_first)
    from p False have "c \<notin> set (x # p)" by simp
    then have "Split ((x # p) @ c # r) [c] = (x # p) # Split r [c]" by (rule Split_char_first)
    with s p False show ?thesis by (simp add: Split_char_first)
  next
    case absent: False
    with False have "c \<notin> set (x # s)" by simp
    then have "Split (x # s) [c] = [x # s]" by (rule Split_char_absent)
    with absent False show ?thesis by (simp add: Split_char_absent)
  qed
qed

lemmas Split_char_eval = Split_char_Nil Split_char_Cons

subsection \<open>The two blocks of the parser\<close>

lemma parseWithoutOwner_unfold:
  "parseWithoutOwner parts =
     (case parts of
        [part] \<Rightarrow>
          if part = [] then None
          else (case Split part ''/'' of
                  [segment] \<Rightarrow> Some (segment, [], [], None)
                | [seg0, seg1] \<Rightarrow>
                    if seg0 \<noteq> [] \<and> seg1 \<noteq> [] then Some (seg0, [], seg1, None) else None
                | _ \<Rightarrow> None)
      | _ \<Rightarrow> None)"
  unfolding parseWithoutOwner_def BucketAclSeparator_def Let_def
  by (auto split: list.splits)

lemma parseWithOwner_unfold:
  "parseWithOwner parts =
     (case parts of
        [part0, part1] \<Rightarrow>
          if part0 = [] \<or> part1 = [] then None
          else (case Split part1 ''/'' of
                  [segment] \<Rightarrow> Some (part0, segment, [], None)
                | [seg0, seg1] \<Rightarrow>
                    if seg0 \<noteq> [] \<and> seg1 \<noteq> [] then Some (part0, seg0, seg1, None) else None
                | _ \<Rightarrow> None)
      | _ \<Rightarrow> None)"
  unfolding parseWithOwner_def BucketAclSeparator_def Let_def
  by (auto split: list.splits)

lemmas parse_unfold =
  BucketACLParseResourceID_def BucketAndExpectedBucketOwnerSeparator_def
  parseWithoutOwner_unfold parseWithOwner_unfold

lemmas create_unfold =
  BucketACLCreateResourceID_def BucketAndExpectedBucketOwnerSeparator_def
  BucketAclSeparator_def Let_def

lemma Parse_bucket:
  assumes "b \<noteq> []" "CHR '','' \<notin> set b" "CHR ''/'' \<notin> set b"
  shows "BucketACLParseResourceID b = (b, [], [], None)"
  using assms by (simp add: parse_unfold Split_char_absent)

lemma Parse_bucket_acl:
  assumes "b \<noteq> []" "CHR '','' \<notin> set b" "CHR ''/'' \<notin> set b"
    and "a \<noteq> []" "CHR '','' \<notin> set a" "CHR ''/'' \<notin> set a"
  shows "BucketACLParseResourceID (b @ ''/'' @ a) = (b, [], a, None)"
  using assms by (simp add: parse_unfold Split_char_absent Split_char_first)

lemma Parse_bucket_owner:
  assumes "b \<noteq> []" "CHR '','' \<notin> set b"
    and "ow \<noteq> []" "CHR '','' \<notin> set ow" "CHR ''/'' \<notin> set ow"
  shows "BucketACLParseResourceID (b @ '','' @ ow) = (b, ow, [], None)"
  using assms by (simp add: parse_unfold Split_char_absent Split_char_first)

lemma Parse_bucket_owner_acl:
  assumes "b \<noteq> []" "CHR '','' \<notin> set b"
    and "ow \<noteq> []" "CHR '','' \<notin> set ow" "CHR ''/'' \<notin> set ow"
    and "a \<noteq> []" "CHR '','' \<notin> set a" "CHR ''/'' \<notin> set a"
  shows "BucketACLParseResourceID (b @ '','' @ ow @ ''/'' @ a) = (b, ow, a, None)"
  using assms by (simp add: parse_unfold Split_char_absent Split_char_first)

lemma parseWithoutOwner_Some:
  assumes "parseWithoutOwner (Split ident '','') = Some r"
  shows "\<exists>b a. r = (b, [], a, None) \<and> b \<noteq> [] \<and> CHR '','' \<notin> set b \<and> CHR ''/'' \<notin> set b \<and>
           CHR '','' \<notin> set a \<and> CHR ''/'' \<notin> set a \<and>
           (if a = [] then ident = b else ident = b @ ''/'' @ a)"
proof -
  from assms obtain part where parts: "Split ident '','' = [part]" and part: "part \<noteq> []"
    and inner: "(case Split part ''/'' of
                  [segment] \<Rightarrow> Some (segment, [], [], None)
                | [seg0, seg1] \<Rightarrow>
                    if seg0 \<noteq> [] \<and> seg1 \<noteq> [] then Some (seg0, [], seg1, None) else None
                | _ \<Rightarrow> None) = Some r"
    unfolding parseWithoutOwner_unfold by (simp split: list.splits if_splits)
  from parts have ident: "part = ident" and nocomma: "CHR '','' \<notin> set ident"
    by (simp_all add: Split_char_eq_single)
  from inner consider
      (one) segment where "Split part ''/'' = [segment]" "r = (segment, [], [], None)"
    | (two) seg0 seg1 where "Split part ''/'' = [seg0, seg1]" "seg0 \<noteq> []" "seg1 \<noteq> []"
        "r = (seg0, [], seg1, None)"
    by (auto split: list.splits if_splits)
  then show ?thesis
  proof cases
    case one
    then have "segment = ident" and "CHR ''/'' \<notin> set ident"
      using ident by (simp_all add: Split_char_eq_single)
    with one part ident nocomma show ?thesis by simp
  next
    case two
    then have "ident = seg0 @ CHR ''/'' # seg1" "CHR ''/'' \<notin> set seg0" "CHR ''/'' \<notin> set seg1"
      using ident by (simp_all add: Split_char_eq_pair)
    with two nocomma show ?thesis by simp
  qed
qed

lemma parseWithOwner_Some:
  assumes "parseWithOwner (Split ident '','') = Some r"
  shows "\<exists>b ow a. r = (b, ow, a, None) \<and> b \<noteq> [] \<and> CHR '','' \<notin> set b \<and>
           ow \<noteq> [] \<and> CHR '','' \<notin> set ow \<and> CHR ''/'' \<notin> set ow \<and>
           CHR '','' \<notin> set a \<and> CHR ''/'' \<notin> set a \<and>
           (if a = [] then ident = b @ '','' @ ow else ident = b @ '','' @ ow @ ''/'' @ a)"
proof -
  from assms obtain part0 part1 where parts: "Split ident '','' = [part0, part1]"
    and part0: "part0 \<noteq> []" and part1: "part1 \<noteq> []"
    and inner: "(case Split part1 ''/'' of
                  [segment] \<Rightarrow> Some (part0, segment, [], None)
                | [seg0, seg1] \<Rightarrow>
                    if seg0 \<noteq> [] \<and> seg1 \<noteq> [] then Some (part0, seg0, seg1, None) else None
                | _ \<Rightarrow> None) = Some r"
    unfolding parseWithOwner_unfold by (simp split: list.splits if_splits)
  from parts have ident: "ident = part0 @ CHR '','' # part1"
    and nocomma: "CHR '','' \<notin> set part0" "CHR '','' \<notin> set part1"
    by (simp_all add: Split_char_eq_pair)
  from inner consider
      (one) segment where "Split part1 ''/'' = [segment]" "r = (part0, segment, [], None)"
    | (two) seg0 seg1 where "Split part1 ''/'' = [seg0, seg1]" "seg0 \<noteq> []" "seg1 \<noteq> []"
        "r = (part0, seg0, seg1, None)"
    by (auto split: list.splits if_splits)
  then show ?thesis
  proof cases
    case one
    then have "segment = part1" and "CHR ''/'' \<notin> set part1"
      by (simp_all add: Split_char_eq_single)
    with one part0 part1 ident nocomma show ?thesis by simp
  next
    case two
    then have "part1 = seg0 @ CHR ''/'' # seg1" "CHR ''/'' \<notin> set seg0" "CHR ''/'' \<notin> set seg1"
      by (simp_all add: Split_char_eq_pair)
    with two part0 ident nocomma show ?thesis by simp
  qed
qed

subsection \<open>What the parser returns\<close>

lemma Parse_success:
  assumes "BucketACLParseResourceID ident = (b, ow, a, None)"
  shows "b \<noteq> [] \<and> CHR '','' \<notin> set ow \<and> CHR ''/'' \<notin> set ow \<and>
         CHR '','' \<notin> set a \<and> CHR ''/'' \<notin> set a \<and>
         BucketACLCreateResourceID b ow a = ident"
proof (cases "parseWithoutOwner (Split ident '','')")
  case (Some r)
  with assms have "r = (b, ow, a, None)"
    by (simp add: BucketACLParseResourceID_def BucketAndExpectedBucketOwnerSeparator_def)
  with parseWithoutOwner_Some [OF Some] show ?thesis
    by (auto simp add: create_unfold split: if_splits)
next
  case None
  with assms obtain r where r: "parseWithOwner (Split ident '','') = Some r"
    and "r = (b, ow, a, None)"
    by (auto simp add: BucketACLParseResourceID_def BucketAndExpectedBucketOwnerSeparator_def
        split: option.splits)
  with parseWithOwner_Some [OF r] show ?thesis
    by (auto simp add: create_unfold split: if_splits)
qed

lemma Parse_failure:
  assumes "BucketACLParseResourceID ident = (b, ow, a, Some e)"
  shows "b = [] \<and> ow = [] \<and> a = [] \<and> e = unexpectedFormat ident"
proof (cases "parseWithoutOwner (Split ident '','')")
  case (Some r)
  with assms have "r = (b, ow, a, Some e)"
    by (simp add: BucketACLParseResourceID_def BucketAndExpectedBucketOwnerSeparator_def)
  with parseWithoutOwner_Some [OF Some] show ?thesis by auto
next
  case None
  note first = this
  show ?thesis
  proof (cases "parseWithOwner (Split ident '','')")
    case (Some r)
    with first assms have "r = (b, ow, a, Some e)"
      by (simp add: BucketACLParseResourceID_def BucketAndExpectedBucketOwnerSeparator_def)
    with parseWithOwner_Some [OF Some] show ?thesis by auto
  next
    case None
    with first assms show ?thesis
      by (simp add: BucketACLParseResourceID_def BucketAndExpectedBucketOwnerSeparator_def)
  qed
qed

lemma Parse_many_parts:
  assumes "Split ident '','' = p0 # p1 # p2 # ps"
  shows "BucketACLParseResourceID ident = ([], [], [], Some (unexpectedFormat ident))"
  using assms by (simp add: parse_unfold)

lemma Parse_empty: "BucketACLParseResourceID [] = ([], [], [], Some (unexpectedFormat []))"
  by (simp add: parse_unfold Split_char_absent)

lemma unexpectedFormat_message:
  "unexpectedFormat ident = Errorf (''unexpected format for ID ('' @ ident @ ''), expected BUCKET or BUCKET,EXPECTED_BUCKET_OWNER or BUCKET/ACL or BUCKET,EXPECTED_BUCKET_OWNER/ACL'')"
  by (simp add: unexpectedFormat_def BucketAndExpectedBucketOwnerSeparator_def
      BucketAclSeparator_def)

section \<open>The claims of the specification\<close>

text \<open>
  C1, round trip. For a non-empty bucket name without \<^verbatim>\<open>,\<close> and \<^verbatim>\<open>/\<close>, and an expected
  bucket owner and an ACL that are each empty or free of both delimiters, parsing the
  identifier that \<^verbatim>\<open>BucketACLCreateResourceID\<close> builds gives back exactly the three
  fields and a \<^verbatim>\<open>nil\<close> error.
\<close>

theorem BucketACL_round_trip:
  assumes "bucket \<noteq> []" "CHR '','' \<notin> set bucket" "CHR ''/'' \<notin> set bucket"
    and "CHR '','' \<notin> set expectedBucketOwner" "CHR ''/'' \<notin> set expectedBucketOwner"
    and "CHR '','' \<notin> set acl" "CHR ''/'' \<notin> set acl"
  shows "BucketACLParseResourceID (BucketACLCreateResourceID bucket expectedBucketOwner acl)
           = (bucket, expectedBucketOwner, acl, None)"
proof (cases "expectedBucketOwner = []")
  case True
  note no_owner = this
  show ?thesis
  proof (cases "acl = []")
    case True
    with no_owner assms show ?thesis
      by (simp add: BucketACLCreateResourceID_def Parse_bucket)
  next
    case False
    with no_owner assms Parse_bucket_acl [of bucket acl] show ?thesis
      by (simp add: create_unfold)
  qed
next
  case False
  note owner = this
  show ?thesis
  proof (cases "acl = []")
    case True
    with owner assms Parse_bucket_owner [of bucket expectedBucketOwner] show ?thesis
      by (simp add: create_unfold)
  next
    case False
    with owner assms Parse_bucket_owner_acl [of bucket expectedBucketOwner acl] show ?thesis
      by (simp add: create_unfold)
  qed
qed

theorem BucketACL_round_trip_witness:
  "BucketACLParseResourceID
     (BucketACLCreateResourceID ''my-bucket'' ''123456789012'' ''private'')
     = (''my-bucket'', ''123456789012'', ''private'', None)
   \<and> BucketACLParseResourceID (BucketACLCreateResourceID ''my-bucket'' [] ''private'')
     = (''my-bucket'', [], ''private'', None)"
  using BucketACL_round_trip [of "''my-bucket''" "''123456789012''" "''private''"]
    BucketACL_round_trip [of "''my-bucket''" "[]" "''private''"]
  by simp

text \<open>
  C2, the shape table of the encoder. For every three strings the identifier is the
  bucket alone when owner and ACL are both empty, bucket \<^verbatim>\<open>/\<close> ACL when only the ACL is
  given, bucket \<^verbatim>\<open>,\<close> owner when only the owner is given, and bucket \<^verbatim>\<open>,\<close> owner \<^verbatim>\<open>/\<close>
  ACL when both are given.
\<close>

theorem BucketACLCreateResourceID_shapes:
  "BucketACLCreateResourceID bucket expectedBucketOwner acl =
     (if expectedBucketOwner = [] \<and> acl = [] then bucket
      else if expectedBucketOwner = [] then bucket @ ''/'' @ acl
      else if acl = [] then bucket @ '','' @ expectedBucketOwner
      else bucket @ '','' @ expectedBucketOwner @ ''/'' @ acl)"
  by (simp add: create_unfold)

theorem BucketACLCreateResourceID_shapes_witness:
  "BucketACLCreateResourceID ''my-bucket'' [] [] = ''my-bucket''
   \<and> BucketACLCreateResourceID ''my-bucket'' [] ''private'' = ''my-bucket/private''
   \<and> BucketACLCreateResourceID ''my-bucket'' ''123456789012'' [] = ''my-bucket,123456789012''
   \<and> BucketACLCreateResourceID ''my-bucket'' ''123456789012'' ''private''
       = ''my-bucket,123456789012/private''"
  using BucketACLCreateResourceID_shapes [of "''my-bucket''" "[]" "[]"]
    BucketACLCreateResourceID_shapes [of "''my-bucket''" "[]" "''private''"]
    BucketACLCreateResourceID_shapes [of "''my-bucket''" "''123456789012''" "[]"]
    BucketACLCreateResourceID_shapes [of "''my-bucket''" "''123456789012''" "''private''"]
  by simp

text \<open>
  C3, the branches of the decoder. On every string \<^verbatim>\<open>BucketACLParseResourceID\<close> does what
  the decision procedure of the specification says: where \<^const>\<open>decode_spec\<close> yields a
  triple the parser returns that triple with a \<^verbatim>\<open>nil\<close> error, and where it yields
  nothing the parser returns three empty strings and the error.
\<close>

theorem BucketACLParseResourceID_refines_decode_spec:
  "BucketACLParseResourceID ident =
     (case decode_spec ident of
        Some (name, ownerQualifier, enumerationValue) \<Rightarrow>
          (name, ownerQualifier, enumerationValue, None)
      | None \<Rightarrow> ([], [], [], Some (unexpectedFormat ident)))"
proof (cases "Split ident '',''" rule: list_shape_cases)
  case none
  then show ?thesis by (simp add: parse_unfold decode_spec_def)
next
  case (one part)
  show ?thesis
  proof (cases "part = []")
    case True
    with one show ?thesis by (simp add: parse_unfold decode_spec_def)
  next
    case False
    show ?thesis
    proof (cases "Split part ''/''" rule: list_shape_cases)
      case none
      with one False show ?thesis by (simp add: parse_unfold decode_spec_def)
    next
      case (one segment)
      then have "segment = part" by (simp add: Split_char_eq_single)
      with one \<open>Split ident '','' = [part]\<close> False show ?thesis
        by (simp add: parse_unfold decode_spec_def)
    next
      case (two seg0 seg1)
      with \<open>Split ident '','' = [part]\<close> False show ?thesis
        by (simp add: parse_unfold decode_spec_def)
    next
      case (more seg0 seg1 seg2 segs)
      with \<open>Split ident '','' = [part]\<close> False show ?thesis
        by (simp add: parse_unfold decode_spec_def)
    qed
  qed
next
  case (two part0 part1)
  show ?thesis
  proof (cases "part0 = [] \<or> part1 = []")
    case True
    with two show ?thesis by (auto simp add: parse_unfold decode_spec_def)
  next
    case False
    show ?thesis
    proof (cases "Split part1 ''/''" rule: list_shape_cases)
      case none
      with two False show ?thesis by (simp add: parse_unfold decode_spec_def)
    next
      case (one segment)
      then have "segment = part1" by (simp add: Split_char_eq_single)
      with one two False show ?thesis by (simp add: parse_unfold decode_spec_def)
    next
      case inner: (two seg0 seg1)
      with two False show ?thesis by (simp add: parse_unfold decode_spec_def)
    next
      case (more seg0 seg1 seg2 segs)
      with two False show ?thesis by (simp add: parse_unfold decode_spec_def)
    qed
  qed
next
  case (more part0 part1 part2 rest)
  then show ?thesis by (simp add: parse_unfold decode_spec_def)
qed

theorem BucketACLParseResourceID_refines_decode_spec_witness:
  "decode_spec ''my-bucket,123456789012/private'' = Some (''my-bucket'', ''123456789012'', ''private'')
   \<and> BucketACLParseResourceID ''my-bucket,123456789012/private''
       = (''my-bucket'', ''123456789012'', ''private'', None)
   \<and> decode_spec ''a/b/c'' = None
   \<and> BucketACLParseResourceID ''a/b/c'' = ([], [], [], Some (unexpectedFormat ''a/b/c''))"
  using BucketACLParseResourceID_refines_decode_spec [of "''my-bucket,123456789012/private''"]
    BucketACLParseResourceID_refines_decode_spec [of "''a/b/c''"]
  by (simp add: decode_spec_def Split_char_eval)

text \<open>
  C4, the encoder is total and the error comes from the parser alone.
  \<^const>\<open>BucketACLCreateResourceID\<close> has the signature of the source: its result is a string,
  with no error beside it, and its body uses no operation that can fail. For every three
  strings, with or without delimiters in them, it yields an identifier, which begins with
  the bucket and is at most two separators longer than the three fields together. The
  error value is built in \<^const>\<open>BucketACLParseResourceID\<close> only: whenever the error result
  of the parser is set, it is the one error for the string that was parsed.
\<close>

theorem BucketACLCreateResourceID_total:
  "(\<exists>ident. BucketACLCreateResourceID bucket expectedBucketOwner acl = ident \<and>
      prefix bucket ident \<and>
      length ident \<le> length bucket + length expectedBucketOwner + length acl + 2) \<and>
   (\<forall>b ow a err. BucketACLParseResourceID raw = (b, ow, a, Some err) \<longrightarrow>
      err = unexpectedFormat raw)"
proof
  show "\<exists>ident. BucketACLCreateResourceID bucket expectedBucketOwner acl = ident \<and>
      prefix bucket ident \<and>
      length ident \<le> length bucket + length expectedBucketOwner + length acl + 2"
    by (simp add: create_unfold)
next
  show "\<forall>b ow a err. BucketACLParseResourceID raw = (b, ow, a, Some err) \<longrightarrow>
      err = unexpectedFormat raw"
    using Parse_failure by blast
qed

theorem BucketACLCreateResourceID_total_witness:
  "(\<exists>ident. BucketACLCreateResourceID [] [] [] = ident) \<and>
   BucketACLParseResourceID (BucketACLCreateResourceID [] [] [])
     = ([], [], [], Some (unexpectedFormat (BucketACLCreateResourceID [] [] [])))"
  using BucketACLCreateResourceID_total
      [of "[]" "[]" "[]" "BucketACLCreateResourceID [] [] []"]
    Parse_empty
  by (simp add: BucketACLCreateResourceID_def)

text \<open>
  C5, the empty string is rejected: the parser returns three empty strings and the error,
  whose message names the empty identifier.
\<close>

theorem BucketACLParseResourceID_empty:
  "BucketACLParseResourceID '''' =
     ('''', '''', '''',
      Some (Errorf ''unexpected format for ID (), expected BUCKET or BUCKET,EXPECTED_BUCKET_OWNER or BUCKET/ACL or BUCKET,EXPECTED_BUCKET_OWNER/ACL''))"
  using unexpectedFormat_message [of "[]"] by (simp add: Parse_empty)

text \<open>
  C6, a lone delimiter is rejected: on \<^verbatim>\<open>/\<close> and on \<^verbatim>\<open>,\<close> the parser returns the error.
\<close>

theorem BucketACLParseResourceID_delimiter_only:
  "BucketACLParseResourceID ''/'' = ([], [], [], Some (unexpectedFormat ''/''))
   \<and> BucketACLParseResourceID '','' = ([], [], [], Some (unexpectedFormat '',''))"
  by (simp add: parse_unfold Split_char_eval)

text \<open>
  C7, more than one owner separator. A string with two or more \<^verbatim>\<open>,\<close> splits into three or
  more parts, neither block of the parser matches, and the parser falls through to the
  error.
\<close>

theorem BucketACLParseResourceID_many_separators:
  assumes "2 \<le> count_list ident (CHR '','')"
  shows "3 \<le> length (Split ident '','') \<and>
         BucketACLParseResourceID ident = ([], [], [], Some (unexpectedFormat ident))"
proof
  from assms show long: "3 \<le> length (Split ident '','')" by (simp add: Split_char_length)
  then show "BucketACLParseResourceID ident = ([], [], [], Some (unexpectedFormat ident))"
  proof (cases "Split ident '',''" rule: list_shape_cases)
    case (more part0 part1 part2 rest)
    then show ?thesis by (rule Parse_many_parts)
  qed simp_all
qed

theorem BucketACLParseResourceID_many_separators_witness:
  "2 \<le> count_list ''a,b,c'' (CHR '','') \<and> 3 \<le> length (Split ''a,b,c'' '','') \<and>
   BucketACLParseResourceID ''a,b,c'' = ([], [], [], Some (unexpectedFormat ''a,b,c''))"
proof -
  have two: "2 \<le> count_list ''a,b,c'' (CHR '','')" by simp
  from BucketACLParseResourceID_many_separators [OF two] two show ?thesis by simp
qed

text \<open>
  C8, an empty part beside the owner separator. A string that splits on \<^verbatim>\<open>,\<close> into exactly
  two parts of which one is empty, such as \<^verbatim>\<open>my-bucket,\<close> or \<^verbatim>\<open>,123456789012\<close>, is rejected
  with the error.
\<close>

theorem BucketACLParseResourceID_empty_part:
  assumes "Split ident '','' = [part0, part1]" and "part0 = [] \<or> part1 = []"
  shows "BucketACLParseResourceID ident = ([], [], [], Some (unexpectedFormat ident))"
  using assms by (auto simp add: parse_unfold)

theorem BucketACLParseResourceID_empty_part_witness:
  "Split ''my-bucket,'' '','' = [''my-bucket'', []] \<and>
   BucketACLParseResourceID ''my-bucket,'' = ([], [], [], Some (unexpectedFormat ''my-bucket,'')) \<and>
   Split '',123456789012'' '','' = [[], ''123456789012''] \<and>
   BucketACLParseResourceID '',123456789012''
     = ([], [], [], Some (unexpectedFormat '',123456789012''))"
  using BucketACLParseResourceID_empty_part [of "''my-bucket,''" "''my-bucket''" "[]"]
    BucketACLParseResourceID_empty_part [of "'',123456789012''" "[]" "''123456789012''"]
  by (simp add: Split_char_eval)

text \<open>
  C9, the content of the error. Whenever the parser fails, the message of its error is
  the fixed text around the string that was parsed, so it contains that string, and it
  lists the four accepted shapes \<^verbatim>\<open>BUCKET\<close>, \<^verbatim>\<open>BUCKET,EXPECTED_BUCKET_OWNER\<close>,
  \<^verbatim>\<open>BUCKET/ACL\<close> and \<^verbatim>\<open>BUCKET,EXPECTED_BUCKET_OWNER/ACL\<close>.
\<close>

theorem BucketACLParseResourceID_error_message:
  assumes "BucketACLParseResourceID ident = (bucket, expectedBucketOwner, acl, Some err)"
  shows "Error err = ''unexpected format for ID ('' @ ident @ ''), expected BUCKET or BUCKET,EXPECTED_BUCKET_OWNER or BUCKET/ACL or BUCKET,EXPECTED_BUCKET_OWNER/ACL''
         \<and> sublist ident (Error err)"
proof -
  from assms have "err = unexpectedFormat ident" using Parse_failure by blast
  then have msg: "Error err = ''unexpected format for ID ('' @ ident @ ''), expected BUCKET or BUCKET,EXPECTED_BUCKET_OWNER or BUCKET/ACL or BUCKET,EXPECTED_BUCKET_OWNER/ACL''"
    by (simp add: unexpectedFormat_message)
  have "sublist ident (''unexpected format for ID ('' @ ident @ ''), expected BUCKET or BUCKET,EXPECTED_BUCKET_OWNER or BUCKET/ACL or BUCKET,EXPECTED_BUCKET_OWNER/ACL'')"
    by (rule sublist_appendI)
  with msg show ?thesis by simp
qed

theorem BucketACLParseResourceID_error_message_witness:
  "BucketACLParseResourceID ''my-bucket,'' = ([], [], [], Some (unexpectedFormat ''my-bucket,'')) \<and>
   Error (unexpectedFormat ''my-bucket,'') = ''unexpected format for ID (my-bucket,), expected BUCKET or BUCKET,EXPECTED_BUCKET_OWNER or BUCKET/ACL or BUCKET,EXPECTED_BUCKET_OWNER/ACL''"
proof -
  have failed: "BucketACLParseResourceID ''my-bucket,''
      = ([], [], [], Some (unexpectedFormat ''my-bucket,''))"
    by (simp add: parse_unfold Split_char_eval)
  from BucketACLParseResourceID_error_message [OF failed] failed show ?thesis by simp
qed

text \<open>
  C10, the encoder is a left inverse of the parser on accepted identifiers. If the parser
  succeeds on a string, building the identifier from the three fields it returned gives
  that string back; the bucket it returned is non-empty, and the owner and the ACL it
  returned contain neither \<^verbatim>\<open>,\<close> nor \<^verbatim>\<open>/\<close>.
\<close>

theorem BucketACLCreateResourceID_left_inverse:
  assumes "BucketACLParseResourceID ident = (bucket, expectedBucketOwner, acl, None)"
  shows "BucketACLCreateResourceID bucket expectedBucketOwner acl = ident \<and> bucket \<noteq> [] \<and>
         CHR '','' \<notin> set expectedBucketOwner \<and> CHR ''/'' \<notin> set expectedBucketOwner \<and>
         CHR '','' \<notin> set acl \<and> CHR ''/'' \<notin> set acl"
  using Parse_success [OF assms] by simp

theorem BucketACLCreateResourceID_left_inverse_witness:
  "BucketACLParseResourceID ''a/b,c'' = (''a/b'', ''c'', [], None) \<and>
   BucketACLCreateResourceID ''a/b'' ''c'' [] = ''a/b,c''"
proof -
  have parsed: "BucketACLParseResourceID ''a/b,c'' = (''a/b'', ''c'', [], None)"
    by (simp add: parse_unfold Split_char_eval)
  from BucketACLCreateResourceID_left_inverse [OF parsed] parsed show ?thesis by simp
qed

end
